theory Spec2Isabelle
  imports Main "HOL-Library.Word" "HOL-Library.Multiset"
begin

section \<open>Go values used by the handlers\<close>

text \<open>
  A value of Go's \<^verbatim>\<open>any\<close> as the handlers meet it: the request arguments and the
  content of an unstructured object. A Go map is an association list read with
  \<^const>\<open>map_of\<close>; \<^verbatim>\<open>ANil\<close> is the nil interface.
\<close>

datatype any =
    ANil
  | AString string
  | ABool bool
  | ANumber int
  | AList "any list"
  | AMap "(string \<times> any) list"

text \<open>The type assertion \<^verbatim>\<open>v.(map[string]any)\<close> in its comma-ok form.\<close>

fun as_map :: "any \<Rightarrow> (string \<times> any) list option" where
  "as_map (AMap m) = Some m"
| "as_map _ = None"

text \<open>
  \<^verbatim>\<open>s, ok := args[k].(string)\<close>: a missing key reads as the nil interface, and a failed
  assertion leaves the zero value \<^verbatim>\<open>""\<close>.
\<close>

definition index_string :: "(string \<times> any) list \<Rightarrow> string \<Rightarrow> string \<times> bool" where
  "index_string args k =
     (case map_of args k of Some (AString s) \<Rightarrow> (s, True) | _ \<Rightarrow> ([], False))"

definition index_bool :: "(string \<times> any) list \<Rightarrow> string \<Rightarrow> bool \<times> bool" where
  "index_bool args k =
     (case map_of args k of Some (ABool b) \<Rightarrow> (b, True) | _ \<Rightarrow> (False, False))"

definition index_map :: "(string \<times> any) list \<Rightarrow> string \<Rightarrow> (string \<times> any) list \<times> bool" where
  "index_map args k =
     (case map_of args k of Some (AMap m) \<Rightarrow> (m, True) | _ \<Rightarrow> ([], False))"

text \<open>
  A Go \<^verbatim>\<open>error\<close>: what the handlers ask of one is its text (\<^verbatim>\<open>err.Error()\<close>) and whether
  \<^verbatim>\<open>apierrors.IsNotFound\<close> holds of it. \<^verbatim>\<open>Wrapped p e\<close> is \<^verbatim>\<open>fmt.Errorf(p + "%w", e)\<close>.
\<close>

datatype go_error =
    StatusNotFound string
  | PlainError string
  | Wrapped string go_error

fun error_string :: "go_error \<Rightarrow> string" where
  "error_string (StatusNotFound s) = s"
| "error_string (PlainError s) = s"
| "error_string (Wrapped p e) = p @ error_string e"

fun IsNotFound :: "go_error \<Rightarrow> bool" where
  "IsNotFound (StatusNotFound s) = True"
| "IsNotFound (PlainError s) = False"
| "IsNotFound (Wrapped p e) = IsNotFound e"

text \<open>\<^verbatim>\<open>strings.Join\<close> and the \<^verbatim>\<open>%d\<close> verb of \<^verbatim>\<open>fmt\<close> on a length.\<close>

fun Join :: "string list \<Rightarrow> string \<Rightarrow> string" where
  "Join [] sep = []"
| "Join [x] sep = x"
| "Join (x # y # ys) sep = x @ sep @ Join (y # ys) sep"

fun itoa :: "nat \<Rightarrow> string" where
  "itoa n = (if n < 10 then [char_of (48 + n)]
             else itoa (n div 10) @ [char_of (48 + n mod 10)])"

section \<open>The SDK's result and the Kubernetes types\<close>

text \<open>
  The operation result of the SDK package (an external module): the handlers and their
  tests read the fields \<^verbatim>\<open>Success\<close>, \<^verbatim>\<open>Message\<close>, \<^verbatim>\<open>Outputs\<close> and \<^verbatim>\<open>Error\<close>.
\<close>

record OperationResult =
  Success :: bool
  Message :: string
  Outputs :: "(string \<times> string) list"
  Error :: string

text \<open>
  Modelled from the spec: the SDK constructors \<^verbatim>\<open>sdk.Success\<close>, \<^verbatim>\<open>sdk.SuccessWithOutputs\<close>
  and \<^verbatim>\<open>sdk.Failure\<close> belong to the external SDK module. A success carries the message
  (and the outputs), a failure carries the error's text in \<^verbatim>\<open>Error\<close>.
\<close>

definition sdk_Success :: "string \<Rightarrow> OperationResult" where
  "sdk_Success msg = \<lparr>Success = True, Message = msg, Outputs = [], Error = []\<rparr>"

definition sdk_SuccessWithOutputs :: "string \<Rightarrow> (string \<times> string) list \<Rightarrow> OperationResult" where
  "sdk_SuccessWithOutputs msg outs = \<lparr>Success = True, Message = msg, Outputs = outs, Error = []\<rparr>"

definition sdk_Failure :: "go_error \<Rightarrow> OperationResult" where
  "sdk_Failure err = \<lparr>Success = False, Message = [], Outputs = [], Error = error_string err\<rparr>"

record GroupVersionResource =
  Group :: string
  Version :: string
  Resource :: string

definition namespaceGVR :: GroupVersionResource where
  "namespaceGVR = \<lparr>Group = [], Version = ''v1'', Resource = ''namespaces''\<rparr>"

datatype DeletionPropagation = DeletePropagationOrphan | DeletePropagationBackground
  | DeletePropagationForeground

record DeleteOptions =
  PropagationPolicy :: "DeletionPropagation option"

text \<open>\<^verbatim>\<open>unstructured.Unstructured\<close>: the object map, and \<^verbatim>\<open>GetName\<close> reading metadata.name.\<close>

datatype Unstructured = Unstructured (Object: "(string \<times> any) list")

definition GetName :: "Unstructured \<Rightarrow> string" where
  "GetName u =
     (case map_of (Object u) ''metadata'' of
        Some (AMap md) \<Rightarrow> (case map_of md ''name'' of Some (AString s) \<Rightarrow> s | _ \<Rightarrow> [])
      | _ \<Rightarrow> [])"

section \<open>The resource client and the extension\<close>

text \<open>
  The \<^verbatim>\<open>ResourceClient\<close> interface is a parameter of every handler; its two methods have
  the signatures of their calls in namespace.go. They act on the cluster, whose state has
  the abstract type \<open>'w\<close>: a call takes the state and returns its answer with the new
  state. \<^verbatim>\<open>Create\<close> answers with an error or with the stored object, \<^verbatim>\<open>Delete\<close> with \<open>None\<close>
  for a nil error.
\<close>

record 'w ResourceClient =
  Create :: "GroupVersionResource \<Rightarrow> Unstructured \<Rightarrow> string \<Rightarrow> 'w \<Rightarrow> (go_error + Unstructured) \<times> 'w"
  Delete :: "GroupVersionResource \<Rightarrow> string \<Rightarrow> string \<Rightarrow> DeleteOptions \<Rightarrow> 'w \<Rightarrow> go_error option \<times> 'w"

text \<open>
  Every call that leaves the process is recorded, in order, beside the cluster state:
  the client's calls and the \<^verbatim>\<open>helm\<close> command lines.
\<close>

datatype api_call =
    CreateCall GroupVersionResource Unstructured string
  | DeleteCall GroupVersionResource string string DeleteOptions
  | ExecCall string "string list"

record 'w cluster =
  world :: 'w
  calls :: "api_call list"

text \<open>
  The \<^verbatim>\<open>Extension\<close> struct: a nil client is \<open>None\<close>, and \<^verbatim>\<open>kubeconfigPath\<close> is the field
  that the Helm handlers read. The mutex \<^verbatim>\<open>mu\<close> is free whenever a handler runs alone, so
  the sequential handlers below pass through \<^verbatim>\<open>Lock\<close> and \<^verbatim>\<open>Unlock\<close> unchanged; it is a
  field of the shared state in the interleaving model. The logging calls write to the
  SDK's logger only and are left out.
\<close>

record 'w Extension =
  client :: "'w ResourceClient option"
  generatedNamespaces :: "string list"
  kubeconfigPath :: string

section \<open>namespace.go\<close>

definition alphanumeric :: string where
  "alphanumeric = ''abcdefghijklmnopqrstuvwxyz0123456789''"

text \<open>The index \<^verbatim>\<open>int(b[i]) % len(alphanumeric)\<close> of a random byte.\<close>

definition symbol_index :: "8 word \<Rightarrow> nat" where
  "symbol_index b = unat b mod length alphanumeric"

text \<open>
  \<^verbatim>\<open>generateID\<close>. The random source is a parameter: asked to fill a buffer of \<open>n\<close> bytes,
  \<^verbatim>\<open>rand.Read\<close> answers with an error or with the bytes it wrote. The buffer is made with
  \<open>n\<close> zero bytes, so it has \<open>n\<close> bytes whatever the reader wrote.
\<close>

definition generateID :: "(nat \<Rightarrow> go_error + 8 word list) \<Rightarrow> nat \<Rightarrow> go_error + string" where
  "generateID rand_Read n =
     (case rand_Read n of
        Inl err \<Rightarrow> Inl (Wrapped ''failed to generate random id: '' err)
      | Inr bs \<Rightarrow>
          Inr (map (\<lambda>b. alphanumeric ! symbol_index b) (take n (bs @ replicate n 0))))"

definition namespace_manifest :: "string \<Rightarrow> Unstructured" where
  "namespace_manifest name =
     Unstructured [(''apiVersion'', AString ''v1''), (''kind'', AString ''Namespace''),
       (''metadata'', AMap [(''name'', AString name)])]"

definition handleCreateNamespace ::
  "(nat \<Rightarrow> go_error + 8 word list) \<Rightarrow> any \<Rightarrow> 'w Extension \<Rightarrow> 'w cluster
     \<Rightarrow> OperationResult \<times> 'w Extension \<times> 'w cluster" where
  "handleCreateNamespace rand_Read req e cl =
     (case client e of
        None \<Rightarrow> (sdk_Failure (PlainError ''kubernetes client not initialized''), e, cl)
      | Some c \<Rightarrow>
        (case as_map req of
           None \<Rightarrow> (sdk_Failure (PlainError ''args must be an object''), e, cl)
         | Some args \<Rightarrow>
           (let prefix = fst (index_string args ''prefix'') in
            if prefix = [] then (sdk_Failure (PlainError ''prefix is required''), e, cl)
            else
              (case generateID rand_Read 8 of
                 Inl err \<Rightarrow> (sdk_Failure err, e, cl)
               | Inr ident \<Rightarrow>
                 (let name = prefix @ ''-'' @ ident;
                      obj = namespace_manifest name;
                      (r, w') = Create c namespaceGVR obj [] (world cl);
                      cl' = \<lparr>world = w', calls = calls cl @ [CreateCall namespaceGVR obj []]\<rparr>
                  in case r of
                       Inl err \<Rightarrow>
                         (sdk_Failure (Wrapped ''failed to create namespace: '' err), e, cl')
                     | Inr result \<Rightarrow>
                         (sdk_SuccessWithOutputs (''Created namespace '' @ GetName result)
                            [(''namespace'', GetName result)],
                          e\<lparr>generatedNamespaces := generatedNamespaces e @ [GetName result]\<rparr>,
                          cl'))))))"

definition deleteOpts :: DeleteOptions where
  "deleteOpts = \<lparr>PropagationPolicy = Some DeletePropagationForeground\<rparr>"

text \<open>
  The body of the loop over the snapshot: one \<^verbatim>\<open>Delete\<close> with foreground propagation, a
  not-found answer skipped, any other error appended to \<^verbatim>\<open>errs\<close> as \<^verbatim>\<open>"<ns>: <error>"\<close>.
\<close>

definition delete_one ::
  "'w ResourceClient \<Rightarrow> string \<Rightarrow> string list \<Rightarrow> 'w cluster \<Rightarrow> string list \<times> 'w cluster" where
  "delete_one c ns errs cl =
     (let (r, w') = Delete c namespaceGVR ns [] deleteOpts (world cl);
          cl' = \<lparr>world = w', calls = calls cl @ [DeleteCall namespaceGVR ns [] deleteOpts]\<rparr>
      in case r of
           None \<Rightarrow> (errs, cl')
         | Some err \<Rightarrow>
             if IsNotFound err then (errs, cl')
             else (errs @ [ns @ '': '' @ error_string err], cl'))"

fun delete_loop ::
  "'w ResourceClient \<Rightarrow> string list \<Rightarrow> string list \<Rightarrow> 'w cluster \<Rightarrow> string list \<times> 'w cluster" where
  "delete_loop c [] errs cl = (errs, cl)"
| "delete_loop c (ns # rest) errs cl =
     (let (errs', cl') = delete_one c ns errs cl in delete_loop c rest errs' cl')"

text \<open>The two returns after the loop.\<close>

definition delete_result :: "string list \<Rightarrow> string list \<Rightarrow> OperationResult" where
  "delete_result namespaces errs =
     (if length errs > 0
      then sdk_Failure (PlainError (''failed to delete namespaces: '' @ Join errs ''; ''))
      else sdk_Success (''Deleted '' @ itoa (length namespaces) @ '' generated namespace(s)''))"

definition handleDeleteGeneratedNamespaces ::
  "any \<Rightarrow> 'w Extension \<Rightarrow> 'w cluster \<Rightarrow> OperationResult \<times> 'w Extension \<times> 'w cluster" where
  "handleDeleteGeneratedNamespaces req e cl =
     (case client e of
        None \<Rightarrow> (sdk_Failure (PlainError ''kubernetes client not initialized''), e, cl)
      | Some c \<Rightarrow>
        (let namespaces = generatedNamespaces e;
             e' = e\<lparr>generatedNamespaces := []\<rparr>
         in if length namespaces = 0
            then (sdk_Success ''No generated namespaces to delete'', e', cl)
            else
              (let (errs, cl') = delete_loop c namespaces [] cl
               in (delete_result namespaces errs, e', cl'))))"

subsection \<open>The handler step by step, and two of them interleaved\<close>

text \<open>
  The same handler as a sequence of steps on the state that goroutines share: the
  extension, its mutex and the cluster. A step is one statement of the source.
  \<^verbatim>\<open>Lock\<close> can be taken only while the mutex is free; every other step is always enabled.
  The program counter holds the goroutine's locals: the snapshot \<^verbatim>\<open>namespaces\<close>, the part
  of it the loop has still to visit, and \<^verbatim>\<open>errs\<close>. The client is set once and never
  changed by a handler, so the loop, entered only past the nil test, finds it set; a
  call on a nil client has no step.
\<close>

record 'w shared =
  ext :: "'w Extension"
  mu :: bool
  env :: "'w cluster"

datatype del_pc =
    DEntry
  | DLock
  | DCopy
  | DClear "string list"
  | DUnlock "string list"
  | DCheck "string list"
  | DLoop "string list" "string list" "string list"
  | DReturn OperationResult

fun del_step :: "del_pc \<Rightarrow> 'w shared \<Rightarrow> (del_pc \<times> 'w shared) option" where
  "del_step DEntry s =
     (case client (ext s) of
        None \<Rightarrow> Some (DReturn (sdk_Failure (PlainError ''kubernetes client not initialized'')), s)
      | Some c \<Rightarrow> Some (DLock, s))"
| "del_step DLock s = (if mu s then None else Some (DCopy, s\<lparr>mu := True\<rparr>))"
| "del_step DCopy s = Some (DClear (generatedNamespaces (ext s)), s)"
| "del_step (DClear namespaces) s =
     Some (DUnlock namespaces, s\<lparr>ext := (ext s)\<lparr>generatedNamespaces := []\<rparr>\<rparr>)"
| "del_step (DUnlock namespaces) s = Some (DCheck namespaces, s\<lparr>mu := False\<rparr>)"
| "del_step (DCheck namespaces) s =
     (if length namespaces = 0
      then Some (DReturn (sdk_Success ''No generated namespaces to delete''), s)
      else Some (DLoop namespaces namespaces [], s))"
| "del_step (DLoop namespaces (ns # rest) errs) s =
     (case client (ext s) of
        None \<Rightarrow> None
      | Some c \<Rightarrow>
          (let (errs', cl') = delete_one c ns errs (env s)
           in Some (DLoop namespaces rest errs', s\<lparr>env := cl'\<rparr>)))"
| "del_step (DLoop namespaces [] errs) s = Some (DReturn (delete_result namespaces errs), s)"
| "del_step (DReturn r) s = None"

text \<open>Two invocations of the handler on one extension: each step is a step of one of them.\<close>

inductive sys_step ::
  "del_pc \<times> del_pc \<times> 'w shared \<Rightarrow> del_pc \<times> del_pc \<times> 'w shared \<Rightarrow> bool" where
  first: "del_step p s = Some (p', s') \<Longrightarrow> sys_step (p, q, s) (p', q, s')"
| second: "del_step q s = Some (q', s') \<Longrightarrow> sys_step (p, q, s) (p, q', s')"

text \<open>
  What a program counter says of its goroutine: whether it holds the mutex, the names it
  has taken out of the list and not yet passed to \<^verbatim>\<open>Delete\<close>, whether it is past the
  clearing of the list, whether it took the path of a non-empty snapshot (the loop, or a
  return other than "No generated namespaces to delete"), and the snapshot it has copied
  while the list is not yet cleared.
\<close>

fun holds :: "del_pc \<Rightarrow> bool" where
  "holds DCopy = True"
| "holds (DClear namespaces) = True"
| "holds (DUnlock namespaces) = True"
| "holds _ = False"

fun pending :: "del_pc \<Rightarrow> string list" where
  "pending (DUnlock namespaces) = namespaces"
| "pending (DCheck namespaces) = namespaces"
| "pending (DLoop namespaces rest errs) = rest"
| "pending _ = []"

fun cleared :: "del_pc \<Rightarrow> bool" where
  "cleared (DUnlock namespaces) = True"
| "cleared (DCheck namespaces) = True"
| "cleared (DLoop namespaces rest errs) = True"
| "cleared (DReturn r) = True"
| "cleared _ = False"

fun took :: "del_pc \<Rightarrow> bool" where
  "took (DUnlock namespaces) = (namespaces \<noteq> [])"
| "took (DCheck namespaces) = (namespaces \<noteq> [])"
| "took (DLoop namespaces rest errs) = True"
| "took (DReturn r) = (r \<noteq> sdk_Success ''No generated namespaces to delete'')"
| "took _ = False"

fun copied :: "del_pc \<Rightarrow> string list option" where
  "copied (DClear namespaces) = Some namespaces"
| "copied _ = None"

text \<open>The names passed to \<^verbatim>\<open>Delete\<close> in a list of calls.\<close>

fun deleted_names :: "api_call list \<Rightarrow> string list" where
  "deleted_names [] = []"
| "deleted_names (DeleteCall gvr name namespace opts # cs) = name # deleted_names cs"
| "deleted_names (c # cs) = deleted_names cs"

text \<open>
  Running one goroutine alone for at most \<open>n\<close> steps, and the property that every
  reachable state of two interleaved handlers has. \<open>names\<close> is the list of generated
  namespaces and \<open>before\<close> the record of calls when both handlers start.
\<close>

fun del_run :: "nat \<Rightarrow> del_pc \<Rightarrow> 'w shared \<Rightarrow> del_pc \<times> 'w shared" where
  "del_run 0 p s = (p, s)"
| "del_run (Suc n) p s =
     (case del_step p s of None \<Rightarrow> (p, s) | Some (p', s') \<Rightarrow> del_run n p' s')"

definition del_inv :: "string list \<Rightarrow> api_call list \<Rightarrow> del_pc \<times> del_pc \<times> 'w shared \<Rightarrow> bool" where
  "del_inv names before cfg =
     (case cfg of (p, q, s) \<Rightarrow>
        client (ext s) \<noteq> None
      \<and> mu s = (holds p \<or> holds q)
      \<and> \<not> (holds p \<and> holds q)
      \<and> (copied p = None \<or> copied p = Some (generatedNamespaces (ext s)))
      \<and> (copied q = None \<or> copied q = Some (generatedNamespaces (ext s)))
      \<and> (generatedNamespaces (ext s) = [] \<or> \<not> (cleared p \<or> cleared q))
      \<and> (calls (env s) = before \<or> cleared p \<or> cleared q)
      \<and> \<not> (took p \<and> took q)
      \<and> mset (deleted_names (calls (env s))) + mset (pending p) + mset (pending q)
            + mset (generatedNamespaces (ext s))
          = mset (deleted_names before) + mset names)"

definition no_op :: OperationResult where
  "no_op = sdk_Success ''No generated namespaces to delete''"

section \<open>The Helm handlers\<close>

text \<open>
  What the Helm handlers take from outside the repository is a parameter: running
  \<^verbatim>\<open>helm\<close> with a command line (\<^verbatim>\<open>CombinedOutput\<close>: the output and a possible error),
  the \<^verbatim>\<open>%v\<close> verb of \<^verbatim>\<open>fmt\<close> on a value, and \<^verbatim>\<open>json.Unmarshal\<close> into a list of maps.
\<close>

record 'w host =
  helm_CombinedOutput :: "string list \<Rightarrow> 'w \<Rightarrow> (string \<times> go_error option) \<times> 'w"
  fmt_v :: "any \<Rightarrow> string"
  json_Unmarshal :: "string \<Rightarrow> go_error + (string \<times> any) list list"

definition newline :: string where
  "newline = [CHR 0x0A]"

definition quote :: string where
  "quote = [CHR 0x27]"

text \<open>\<^verbatim>\<open>strings.Contains\<close>.\<close>

fun Contains :: "string \<Rightarrow> string \<Rightarrow> bool" where
  "Contains [] sub = (sub = [])"
| "Contains (c # cs) sub = (take (length sub) (c # cs) = sub \<or> Contains cs sub)"

definition kubeconfig_flag :: "'w Extension \<Rightarrow> string list" where
  "kubeconfig_flag e = (if kubeconfigPath e \<noteq> [] then [''--kubeconfig'', kubeconfigPath e] else [])"

definition run_helm :: "'w host \<Rightarrow> string list \<Rightarrow> 'w cluster \<Rightarrow> (string \<times> go_error option) \<times> 'w cluster" where
  "run_helm h cmdArgs cl =
     (let (r, w') = helm_CombinedOutput h cmdArgs (world cl)
      in (r, \<lparr>world = w', calls = calls cl @ [ExecCall ''helm'' cmdArgs]\<rparr>))"

text \<open>
  \<^verbatim>\<open>handleHelmInstall\<close>. The loop over \<^verbatim>\<open>values\<close> visits the entries in the order of the
  association list (Go leaves the order of a map's entries open).
\<close>

definition handleHelmInstall ::
  "'w host \<Rightarrow> any \<Rightarrow> 'w Extension \<Rightarrow> 'w cluster \<Rightarrow> OperationResult \<times> 'w Extension \<times> 'w cluster" where
  "handleHelmInstall h req e cl =
     (case as_map req of
        None \<Rightarrow> (sdk_Failure (PlainError ''args must be an object''), e, cl)
      | Some args \<Rightarrow>
        (let (chart, ok) = index_string args ''chart'' in
         if \<not> ok \<or> chart = [] then (sdk_Failure (PlainError ''chart parameter is required''), e, cl)
         else
           (let name = fst (index_string args ''name'');
                namespace = fst (index_string args ''namespace'');
                vals = fst (index_map args ''values'');
                cmdArgs = [''install'']
                  @ (if name \<noteq> [] then [name] else [''--generate-name''])
                  @ [chart]
                  @ (if namespace \<noteq> [] then [''--namespace'', namespace] else [])
                  @ kubeconfig_flag e
                  @ concat (map (\<lambda>(k, v). [''--set'', k @ ''='' @ fmt_v h v]) vals);
                ((output, err), cl') = run_helm h cmdArgs cl
            in case err of
                 Some er \<Rightarrow>
                   (sdk_Failure (PlainError (''helm install failed: '' @ error_string er @ newline
                      @ ''Output: '' @ output)), e, cl')
               | None \<Rightarrow>
                   (sdk_Success (''Helm chart installed successfully'' @ newline @ output), e, cl'))))"

definition release_line :: "(string \<times> any) list \<Rightarrow> string" where
  "release_line release =
     ''  - '' @ fst (index_string release ''name'')
       @ '' (namespace: '' @ fst (index_string release ''namespace'')
       @ '', status: '' @ fst (index_string release ''status'')
       @ '', chart: '' @ fst (index_string release ''chart'') @ '')'' @ newline"

definition handleHelmList ::
  "'w host \<Rightarrow> any \<Rightarrow> 'w Extension \<Rightarrow> 'w cluster \<Rightarrow> OperationResult \<times> 'w Extension \<times> 'w cluster" where
  "handleHelmList h req e cl =
     (case as_map req of
        None \<Rightarrow> (sdk_Failure (PlainError ''args must be an object''), e, cl)
      | Some args \<Rightarrow>
        (let namespace = fst (index_string args ''namespace'');
             allNamespaces = fst (index_bool args ''allNamespaces'');
             cmdArgs = [''list'', ''--output'', ''json'']
               @ (if allNamespaces then [''--all-namespaces'']
                  else if namespace \<noteq> [] then [''--namespace'', namespace] else [])
               @ kubeconfig_flag e;
             ((output, err), cl') = run_helm h cmdArgs cl
         in case err of
              Some er \<Rightarrow>
                (sdk_Failure (PlainError (''helm list failed: '' @ error_string er @ newline
                   @ ''Output: '' @ output)), e, cl')
            | None \<Rightarrow>
                (case (if length output > 0 then json_Unmarshal h output else Inr []) of
                   Inl er \<Rightarrow>
                     (sdk_Failure (PlainError (''failed to parse helm list output: '' @ error_string er)),
                      e, cl')
                 | Inr releases \<Rightarrow>
                     if length releases = 0 then (sdk_Success ''No Helm releases found'', e, cl')
                     else (sdk_Success (''Found '' @ itoa (length releases) @ '' Helm release(s):''
                             @ newline @ concat (map release_line releases)), e, cl'))))"

definition handleHelmUninstall ::
  "'w host \<Rightarrow> any \<Rightarrow> 'w Extension \<Rightarrow> 'w cluster \<Rightarrow> OperationResult \<times> 'w Extension \<times> 'w cluster" where
  "handleHelmUninstall h req e cl =
     (case as_map req of
        None \<Rightarrow> (sdk_Failure (PlainError ''args must be an object''), e, cl)
      | Some args \<Rightarrow>
        (let (name, ok) = index_string args ''name'' in
         if \<not> ok \<or> name = [] then (sdk_Failure (PlainError ''name parameter is required''), e, cl)
         else
           (let namespace = fst (index_string args ''namespace'');
                cmdArgs = [''uninstall'', name]
                  @ (if namespace \<noteq> [] then [''--namespace'', namespace] else [])
                  @ kubeconfig_flag e;
                ((output, err), cl') = run_helm h cmdArgs cl
            in case err of
                 Some er \<Rightarrow>
                   if Contains output ''not found''
                   then (sdk_Success (''Helm release '' @ quote @ name @ quote
                           @ '' not found (already uninstalled)''), e, cl')
                   else (sdk_Failure (PlainError (''helm uninstall failed: '' @ error_string er
                           @ newline @ ''Output: '' @ output)), e, cl')
               | None \<Rightarrow>
                   (sdk_Success (''Helm release '' @ quote @ name @ quote
                      @ '' uninstalled successfully'' @ newline @ output), e, cl'))))"

section \<open>The permission probe\<close>

text \<open>
  Modelled from the spec: the handler of the \<^verbatim>\<open>authCanI\<close> operation (\<^verbatim>\<open>handleAuthCanI\<close>,
  which operations.go registers) is not among the sources. Section 4.4 of the
  specification: one call of the client's permission check with the query; a failed check
  is a failed result; otherwise the answer is put in the outputs under \<^verbatim>\<open>allowed\<close>, and
  when an expectation is supplied the operation succeeds exactly when the answer equals
  it. The permission check of the client is a parameter, acting on the cluster as the
  other client calls do.
\<close>

record PermissionQuery =
  verb :: string
  resource :: string
  subject :: string
  query_namespace :: "string option"
  apiGroup :: "string option"
  resourceName :: "string option"
  expectedAllowed :: "bool option"

definition format_bool :: "bool \<Rightarrow> string" where
  "format_bool b = (if b then ''true'' else ''false'')"

definition CheckAccess ::
  "(PermissionQuery \<Rightarrow> 'w \<Rightarrow> (go_error + bool) \<times> 'w) \<Rightarrow> PermissionQuery \<Rightarrow> 'w \<Rightarrow> OperationResult \<times> 'w" where
  "CheckAccess CheckPermission query w =
     (let (r, w') = CheckPermission query w
      in case r of
           Inl err \<Rightarrow> (sdk_Failure (Wrapped ''permission check failed: '' err), w')
         | Inr allowed \<Rightarrow>
             (let outs = [(''allowed'', format_bool allowed)]
              in case expectedAllowed query of
                   None \<Rightarrow> (sdk_SuccessWithOutputs (''allowed: '' @ format_bool allowed) outs, w')
                 | Some expected \<Rightarrow>
                     if allowed = expected
                     then (sdk_SuccessWithOutputs (''allowed: '' @ format_bool allowed) outs, w')
                     else ((sdk_Failure (PlainError (''expected allowed='' @ format_bool expected
                              @ '', got allowed='' @ format_bool allowed)))\<lparr>Outputs := outs\<rparr>, w')))"

text \<open>Fixtures: a check that denies everything, and a query that expects to be allowed.\<close>

definition deny_all :: "PermissionQuery \<Rightarrow> unit \<Rightarrow> (go_error + bool) \<times> unit" where
  "deny_all query w = (Inr False, w)"

definition alice_query :: PermissionQuery where
  "alice_query = \<lparr>verb = ''get'', resource = ''pods'', subject = ''alice'',
     query_namespace = Some ''default'', apiGroup = None, resourceName = None,
     expectedAllowed = Some True\<rparr>"

section \<open>The mock client of the tests\<close>

text \<open>
  \<^verbatim>\<open>mockClient\<close> of the test files: a client made of a create and a delete function, on a
  cluster without state. The fixtures below are the inputs at which the theorems are
  instantiated.
\<close>

definition mockClient ::
  "(Unstructured \<Rightarrow> go_error + Unstructured) \<Rightarrow> (string \<Rightarrow> go_error option) \<Rightarrow> unit ResourceClient" where
  "mockClient createFn deleteFn =
     \<lparr>Create = (\<lambda>gvr obj namespace w. (createFn obj, w)),
      Delete = (\<lambda>gvr name namespace opts w. (deleteFn name, w))\<rparr>"

definition test_extension :: "unit ResourceClient \<Rightarrow> string list \<Rightarrow> unit Extension" where
  "test_extension c names = \<lparr>client = Some c, generatedNamespaces = names, kubeconfigPath = []\<rparr>"

definition fresh_cluster :: "unit cluster" where
  "fresh_cluster = \<lparr>world = (), calls = []\<rparr>"

definition zero_rand :: "nat \<Rightarrow> go_error + 8 word list" where
  "zero_rand n = Inr (replicate n 0)"

definition refusing_client :: "unit ResourceClient" where
  "refusing_client = mockClient (\<lambda>obj. Inl (PlainError ''connection refused'')) (\<lambda>name. None)"

definition echo_client :: "unit ResourceClient" where
  "echo_client = mockClient (\<lambda>obj. Inr obj) (\<lambda>name. None)"


definition gone_client :: "unit ResourceClient" where
  "gone_client = mockClient (\<lambda>obj. Inr obj)
     (\<lambda>name. Some (StatusNotFound (''namespaces '' @ name @ '' not found'')))"

definition denying_client :: "unit ResourceClient" where
  "denying_client = mockClient (\<lambda>obj. Inr obj) (\<lambda>name. Some (PlainError ''permission denied''))"

definition nil_extension :: "unit Extension" where
  "nil_extension = \<lparr>client = None, generatedNamespaces = [], kubeconfigPath = []\<rparr>"

definition no_helm :: "unit host" where
  "no_helm =
     \<lparr>helm_CombinedOutput = (\<lambda>cmdArgs w. (([], Some (PlainError ''executable file not found'')), w)),
      fmt_v = (\<lambda>v. []),
      json_Unmarshal = (\<lambda>output. Inr [])\<rparr>"

section \<open>The words of the specification\<close>

text \<open>The 256 values of a byte, and how many of them \<^const>\<open>symbol_index\<close> sends to an index.\<close>

definition byte_values :: "8 word list" where
  "byte_values = map of_nat [0..<256]"

definition byte_count :: "nat \<Rightarrow> nat" where
  "byte_count k = length (filter (\<lambda>b. symbol_index b = k) byte_values)"


text \<open>
  The answers of the client when \<^verbatim>\<open>Delete\<close> is called, with foreground propagation, on each
  name of a snapshot in order; the answers that are errors other than not-found; the
  entries \<^verbatim>\<open>"<ns>: <error>"\<close> of the namespaces with such an answer; and the number of
  deletions that the client performed (the nil answers).
\<close>

fun delete_answers :: "'w ResourceClient \<Rightarrow> string list \<Rightarrow> 'w \<Rightarrow> go_error option list" where
  "delete_answers c [] w = []"
| "delete_answers c (ns # rest) w =
     (let (r, w') = Delete c namespaceGVR ns [] deleteOpts w in r # delete_answers c rest w')"

fun delete_world :: "'w ResourceClient \<Rightarrow> string list \<Rightarrow> 'w \<Rightarrow> 'w" where
  "delete_world c [] w = w"
| "delete_world c (ns # rest) w =
     (let (r, w') = Delete c namespaceGVR ns [] deleteOpts w in delete_world c rest w')"

fun hard_error :: "go_error option \<Rightarrow> bool" where
  "hard_error None = False"
| "hard_error (Some err) = (\<not> IsNotFound err)"

definition failed_deletes :: "string list \<Rightarrow> go_error option list \<Rightarrow> string list" where
  "failed_deletes namespaces answers =
     map (\<lambda>(ns, r). ns @ '': '' @ (case r of Some err \<Rightarrow> error_string err | None \<Rightarrow> []))
       (filter (\<lambda>(ns, r). hard_error r) (zip namespaces answers))"

definition performed :: "go_error option list \<Rightarrow> nat" where
  "performed answers = length (filter (\<lambda>r. r = None) answers)"

section \<open>Properties of the identifier\<close>

lemma length_alphanumeric: "length alphanumeric = 36"
  by (simp add: alphanumeric_def)

lemma distinct_alphanumeric: "distinct alphanumeric"
  by (simp add: alphanumeric_def)

lemma symbol_index_less: "symbol_index b < 36"
  by (simp add: symbol_index_def length_alphanumeric)

lemma symbol_in_alphabet: "alphanumeric ! symbol_index b \<in> set alphanumeric"
  by (rule nth_mem) (simp add: symbol_index_less length_alphanumeric)

lemma unat_byte: "n < 256 \<Longrightarrow> unat (of_nat n :: 8 word) = n"
  by (simp add: unat_of_nat take_bit_nat_eq_self)

lemma symbol_index_of_nat: "n < 256 \<Longrightarrow> symbol_index (of_nat n) = n mod 36"
  by (simp add: symbol_index_def length_alphanumeric unat_byte)

lemma of_nat_upt_distinct:
  "N \<le> 256 \<Longrightarrow> distinct (map (of_nat :: nat \<Rightarrow> 8 word) [0..<N])"
  by (auto simp: distinct_map inj_on_def dest!: arg_cong[where f=unat] simp: unat_byte)

lemma byte_values_distinct: "distinct byte_values"
  unfolding byte_values_def by (rule of_nat_upt_distinct) simp

lemma byte_values_UNIV: "set byte_values = UNIV"
proof -
  have "x \<in> set byte_values" for x :: "8 word"
  proof -
    have "unat x < 256" using unsigned_less[of x, where 'a=nat] by simp
    moreover have "of_nat (unat x) = x" by simp
    ultimately have "x \<in> of_nat ` {0..<256}" by (metis atLeastLessThan_iff image_eqI zero_le)
    thus ?thesis unfolding byte_values_def set_map set_upt .
  qed
  thus ?thesis by auto
qed

lemma residue_set:
  assumes "k < 36"
  shows "{n::nat. n < 256 \<and> n mod 36 = k} = (\<lambda>q. 36 * q + k) ` {q. q < (if k < 4 then 8 else 7)}"
proof (rule set_eqI, rule iffI)
  fix n assume "n \<in> {n. n < 256 \<and> n mod 36 = k}"
  hence n: "n < 256" "n mod 36 = k" by auto
  have eq: "n = 36 * (n div 36) + k" using n(2) mult_div_mod_eq[of 36 n] by simp
  have "36 * (n div 36) + k < 256" using eq n(1) by simp
  hence "n div 36 < (if k < 4 then 8 else 7)" by (simp split: if_splits)
  with eq show "n \<in> (\<lambda>q. 36 * q + k) ` {q. q < (if k < 4 then 8 else 7)}" by blast
next
  fix n assume "n \<in> (\<lambda>q. 36 * q + k) ` {q. q < (if k < 4 then 8 else 7)}"
  then obtain q where "n = 36 * q + k" "q < (if k < 4 then 8 else 7)" by auto
  thus "n \<in> {n. n < 256 \<and> n mod 36 = k}" using assms by (auto split: if_splits)
qed

lemma residue_card:
  "card {n::nat. n < 256 \<and> n mod 36 = k} = (if k < 4 then 8 else if k < 36 then 7 else 0)"
proof (cases "k < 36")
  case True
  have inj: "inj_on (\<lambda>q::nat. 36 * q + k) A" for A by (simp add: inj_on_def)
  have "card {n::nat. n < 256 \<and> n mod 36 = k} = card {q::nat. q < (if k < 4 then 8 else 7)}"
    by (simp only: residue_set[OF True] card_image[OF inj])
  thus ?thesis using True by (auto split: if_splits)
next
  case False
  hence "{n::nat. n < 256 \<and> n mod 36 = k} = {}" by auto
  thus ?thesis using False by simp
qed

lemma count_upt:
  "N \<le> 256 \<Longrightarrow> length (filter (\<lambda>b. symbol_index b = k) (map of_nat [0..<N]))
     = card {n::nat. n < N \<and> n mod 36 = k}"
proof -
  assume N: "N \<le> 256"
  have "filter (\<lambda>n. symbol_index (of_nat n) = k) [0..<N] = filter (\<lambda>n. n mod 36 = k) [0..<N]"
    using N by (intro filter_cong refl) (simp add: symbol_index_of_nat)
  hence "length (filter (\<lambda>b. symbol_index b = k) (map of_nat [0..<N]))
      = length (filter (\<lambda>n. n mod 36 = k) [0..<N])"
    by (simp add: filter_map o_def)
  also have "\<dots> = card (set (filter (\<lambda>n. n mod 36 = k) [0..<N]))"
    by (rule distinct_card[symmetric]) simp
  also have "set (filter (\<lambda>n. n mod 36 = k) [0..<N]) = {n::nat. n < N \<and> n mod 36 = k}" by auto
  finally show ?thesis .
qed

lemma byte_count_card: "byte_count k = card {n::nat. n < 256 \<and> n mod 36 = k}"
  unfolding byte_count_def byte_values_def by (rule count_upt) simp


lemma replicate8: "replicate 8 x = [x, x, x, x, x, x, x, x]"
  by (simp add: numeral_eq_Suc)

lemma generateID_zero: "generateID zero_rand 8 = Inr ''aaaaaaaa''"
  by (simp add: generateID_def zero_rand_def replicate8 symbol_index_def alphanumeric_def)

text \<open>
  C5, as stated, fails: the reduction of a byte modulo 36 does not give every symbol the
  same number of byte values. Index 0 (the symbol a) is the image of 8 byte values and
  index 4 (the symbol e) of 7.
\<close>

theorem byte_count_not_uniform: "byte_count 0 = 8 \<and> byte_count 4 = 7"
  by (simp only: byte_count_card residue_card) simp

text \<open>
  C5, amended: when \<^verbatim>\<open>rand.Read\<close> delivers the 8 bytes \<open>bs\<close>, the identifier is the list of the
  symbols \<open>alphanumeric ! (b mod 36)\<close> of these bytes, in their order, so each of its
  characters is one of the 36 symbols a-z, 0-9. \<^const>\<open>byte_values\<close> lists each of the 256
  byte values once, and of these 8 are sent to each of the indices 0 to 3 (the symbols a,
  b, c, d) and 7 to each of the indices 4 to 35. Under a uniform byte the first four
  symbols have probability 8/256 each and every other symbol 7/256.
\<close>

theorem byte_count_distribution:
  "(rand_Read 8 = Inr bs \<and> length bs = 8 \<longrightarrow>
      generateID rand_Read 8 = Inr (map (\<lambda>b. alphanumeric ! symbol_index b) bs)
      \<and> set (map (\<lambda>b. alphanumeric ! symbol_index b) bs) \<subseteq> set alphanumeric)
   \<and> symbol_index b = unat b mod 36
   \<and> length alphanumeric = 36 \<and> distinct alphanumeric
   \<and> alphanumeric ! symbol_index b \<in> set alphanumeric
   \<and> set byte_values = UNIV \<and> distinct byte_values
   \<and> byte_count k = (if k < 4 then 8 else if k < 36 then 7 else 0)"
proof -
  have gen: "generateID rand_Read 8 = Inr (map (\<lambda>b. alphanumeric ! symbol_index b) bs)"
    if "rand_Read 8 = Inr bs" and "length bs = 8"
    using that by (simp add: generateID_def)
  have sub: "set (map (\<lambda>b. alphanumeric ! symbol_index b) bs) \<subseteq> set alphanumeric"
    using symbol_in_alphabet by auto
  have idx: "symbol_index b = unat b mod 36"
    by (simp add: symbol_index_def length_alphanumeric)
  have cnt: "byte_count k = (if k < 4 then 8 else if k < 36 then 7 else 0)"
    by (simp only: byte_count_card residue_card)
  from gen sub idx cnt length_alphanumeric distinct_alphanumeric symbol_in_alphabet[of b]
    byte_values_UNIV byte_values_distinct
  show ?thesis by blast
qed

theorem byte_count_distribution_witness:
  "generateID zero_rand 8 = Inr ''aaaaaaaa'' \<and> byte_count 0 = 8 \<and> byte_count 35 = 7"
proof -
  have h: "zero_rand 8 = Inr (replicate 8 0) \<and> length (replicate 8 (0 :: 8 word)) = 8"
    by (simp add: zero_rand_def)
  have "generateID zero_rand 8 = Inr (map (\<lambda>b. alphanumeric ! symbol_index b) (replicate 8 0))"
    using byte_count_distribution [of zero_rand "replicate 8 0" 0 0] h by blast
  moreover have "byte_count 0 = 8 \<and> byte_count 35 = 7"
    using byte_count_distribution [of zero_rand "replicate 8 0" 0 0]
      byte_count_distribution [of zero_rand "replicate 8 0" 0 35] by simp
  ultimately show ?thesis
    by (simp add: replicate8 symbol_index_def alphanumeric_def)
qed

section \<open>Properties of createNamespace\<close>

text \<open>
  C3: when the handler reaches the client's \<^verbatim>\<open>Create\<close> (client set, arguments a map with a
  non-empty prefix, identifier generated) and \<^verbatim>\<open>Create\<close> answers with an error, the result
  is a failure carrying that error, and the extension, so its list of generated
  namespaces, is what it was before the call.
\<close>

theorem create_failure_untracked:
  assumes "client e = Some c"
    and "as_map req = Some args"
    and "fst (index_string args ''prefix'') = prefix" and "prefix \<noteq> []"
    and "generateID rand_Read 8 = Inr ident"
    and "Create c namespaceGVR (namespace_manifest (prefix @ ''-'' @ ident)) [] (world cl) = (Inl err, w')"
  shows "\<not> Success (fst (handleCreateNamespace rand_Read req e cl))
       \<and> Error (fst (handleCreateNamespace rand_Read req e cl))
           = ''failed to create namespace: '' @ error_string err
       \<and> fst (snd (handleCreateNamespace rand_Read req e cl)) = e
       \<and> generatedNamespaces (fst (snd (handleCreateNamespace rand_Read req e cl)))
           = generatedNamespaces e"
  using assms by (simp add: handleCreateNamespace_def Let_def sdk_Failure_def)

theorem create_failure_untracked_witness:
  "\<not> Success (fst (handleCreateNamespace zero_rand (AMap [(''prefix'', AString ''vm-test'')])
        (test_extension refusing_client [''kept'']) fresh_cluster))
   \<and> generatedNamespaces (fst (snd (handleCreateNamespace zero_rand
        (AMap [(''prefix'', AString ''vm-test'')])
        (test_extension refusing_client [''kept'']) fresh_cluster))) = [''kept'']"
proof -
  have h1: "client (test_extension refusing_client [''kept'']) = Some refusing_client"
    by (simp add: test_extension_def)
  have h2: "as_map (AMap [(''prefix'', AString ''vm-test'')]) = Some [(''prefix'', AString ''vm-test'')]"
    by simp
  have h3: "fst (index_string [(''prefix'', AString ''vm-test'')] ''prefix'') = ''vm-test''"
    by (simp add: index_string_def)
  have h4: "''vm-test'' \<noteq> []" by simp
  have h5: "Create refusing_client namespaceGVR (namespace_manifest (''vm-test'' @ ''-'' @ ''aaaaaaaa'')) []
              (world fresh_cluster) = (Inl (PlainError ''connection refused''), ())"
    by (simp add: refusing_client_def mockClient_def)
  show ?thesis
    using create_failure_untracked [OF h1 h2 h3 h4 generateID_zero h5]
    by (simp add: test_extension_def)
qed






text \<open>
  C6, as stated, fails for createNamespace: the handler tests the client before the
  arguments, so with no client set, arguments that are not a map are answered with
  "kubernetes client not initialized".
\<close>

theorem create_nil_client_message:
  "\<not> Success (fst (handleCreateNamespace zero_rand (AString ''not a map'') nil_extension fresh_cluster))
   \<and> Error (fst (handleCreateNamespace zero_rand (AString ''not a map'') nil_extension fresh_cluster))
       = ''kubernetes client not initialized''
   \<and> ''kubernetes client not initialized'' \<noteq> ''args must be an object''"
  by (simp add: handleCreateNamespace_def nil_extension_def sdk_Failure_def)

text \<open>
  C6, amended: with arguments that are not a string-keyed map, helmInstall, helmUninstall
  and helmList fail with "args must be an object", and so does createNamespace when its
  client is set; createNamespace without a client fails with "kubernetes client not
  initialized". In every case the extension and the cluster, with its record of client
  calls and command lines, are returned unchanged: no call is made.
\<close>

theorem args_must_be_object:
  assumes "as_map req = None"
  shows "handleCreateNamespace rand_Read req e cl =
           (sdk_Failure (PlainError (if client e = None then ''kubernetes client not initialized''
                                     else ''args must be an object'')), e, cl)
       \<and> handleHelmInstall h req e' cl' = (sdk_Failure (PlainError ''args must be an object''), e', cl')
       \<and> handleHelmUninstall h req e' cl' = (sdk_Failure (PlainError ''args must be an object''), e', cl')
       \<and> handleHelmList h req e' cl' = (sdk_Failure (PlainError ''args must be an object''), e', cl')
       \<and> \<not> Success (sdk_Failure (PlainError ''args must be an object''))
       \<and> Error (sdk_Failure (PlainError ''args must be an object'')) = ''args must be an object''
       \<and> \<not> Success (sdk_Failure (PlainError ''kubernetes client not initialized''))"
  using assms
  by (simp add: handleCreateNamespace_def handleHelmInstall_def handleHelmUninstall_def
      handleHelmList_def sdk_Failure_def split: option.splits)

theorem args_must_be_object_witness:
  "handleCreateNamespace zero_rand (AString ''not a map'') (test_extension echo_client []) fresh_cluster
     = (sdk_Failure (PlainError ''args must be an object''), test_extension echo_client [], fresh_cluster)
   \<and> handleHelmInstall no_helm (AString ''not a map'') nil_extension fresh_cluster
     = (sdk_Failure (PlainError ''args must be an object''), nil_extension, fresh_cluster)
   \<and> handleHelmUninstall no_helm (AString ''not a map'') nil_extension fresh_cluster
     = (sdk_Failure (PlainError ''args must be an object''), nil_extension, fresh_cluster)
   \<and> handleHelmList no_helm (AString ''not a map'') nil_extension fresh_cluster
     = (sdk_Failure (PlainError ''args must be an object''), nil_extension, fresh_cluster)"
proof -
  have h: "as_map (AString ''not a map'') = None" by simp
  show ?thesis
    using args_must_be_object [OF h, of zero_rand "test_extension echo_client []" fresh_cluster
        no_helm nil_extension fresh_cluster]
    by (simp add: test_extension_def)
qed

section \<open>Properties of deleteGeneratedNamespaces\<close>

text \<open>
  C9: with a client set and an empty list of generated namespaces the handler returns the
  success "No generated namespaces to delete", leaves the extension as it is and makes no
  call: the cluster and the record of calls are unchanged.
\<close>

theorem delete_nothing_to_do:
  assumes "client e = Some c" and "generatedNamespaces e = []"
  shows "handleDeleteGeneratedNamespaces req e cl
           = (sdk_Success ''No generated namespaces to delete'', e, cl)
       \<and> Success (fst (handleDeleteGeneratedNamespaces req e cl))
       \<and> Message (fst (handleDeleteGeneratedNamespaces req e cl)) = ''No generated namespaces to delete''
       \<and> calls (snd (snd (handleDeleteGeneratedNamespaces req e cl))) = calls cl"
proof -
  have "e\<lparr>generatedNamespaces := []\<rparr> = e" using assms(2) by (cases e) simp
  thus ?thesis using assms by (simp add: handleDeleteGeneratedNamespaces_def Let_def sdk_Success_def)
qed

theorem delete_nothing_to_do_witness:
  "handleDeleteGeneratedNamespaces (AMap []) (test_extension refusing_client []) fresh_cluster
     = (sdk_Success ''No generated namespaces to delete'', test_extension refusing_client [], fresh_cluster)
   \<and> calls (snd (snd (handleDeleteGeneratedNamespaces (AMap [])
        (test_extension refusing_client []) fresh_cluster))) = []"
proof -
  have h1: "client (test_extension refusing_client []) = Some refusing_client"
    by (simp add: test_extension_def)
  have h2: "generatedNamespaces (test_extension refusing_client []) = []"
    by (simp add: test_extension_def)
  show ?thesis using delete_nothing_to_do [OF h1 h2, of "AMap []" fresh_cluster]
    by (simp add: fresh_cluster_def)
qed

lemma failed_deletes_Nil: "failed_deletes [] answers = []"
  by (simp add: failed_deletes_def)

lemma failed_deletes_Cons:
  "failed_deletes (ns # rest) (r # rs) =
     (case r of None \<Rightarrow> []
      | Some err \<Rightarrow> if IsNotFound err then [] else [ns @ '': '' @ error_string err])
     @ failed_deletes rest rs"
  by (simp add: failed_deletes_def split: option.splits)

lemma delete_one_run:
  "delete_one c ns errs cl =
     (errs @ (case fst (Delete c namespaceGVR ns [] deleteOpts (world cl)) of None \<Rightarrow> []
              | Some err \<Rightarrow> if IsNotFound err then [] else [ns @ '': '' @ error_string err]),
      \<lparr>world = snd (Delete c namespaceGVR ns [] deleteOpts (world cl)),
       calls = calls cl @ [DeleteCall namespaceGVR ns [] deleteOpts]\<rparr>)"
  by (cases "Delete c namespaceGVR ns [] deleteOpts (world cl)")
     (simp add: delete_one_def split: option.splits)

lemma delete_loop_run:
  "delete_loop c namespaces errs cl =
     (errs @ failed_deletes namespaces (delete_answers c namespaces (world cl)),
      \<lparr>world = delete_world c namespaces (world cl),
       calls = calls cl @ map (\<lambda>ns. DeleteCall namespaceGVR ns [] deleteOpts) namespaces\<rparr>)"
proof (induction namespaces arbitrary: errs cl)
  case Nil
  show ?case by (simp add: failed_deletes_Nil)
next
  case (Cons ns rest)
  obtain r w' where d: "Delete c namespaceGVR ns [] deleteOpts (world cl) = (r, w')"
    by (cases "Delete c namespaceGVR ns [] deleteOpts (world cl)") auto
  show ?case
    by (simp add: delete_one_run d Cons.IH failed_deletes_Cons)
qed

lemma length_delete_answers: "length (delete_answers c namespaces w) = length namespaces"
  by (induction namespaces arbitrary: w) (auto split: prod.splits)

lemma failed_deletes_empty:
  "length answers = length namespaces \<Longrightarrow>
     (failed_deletes namespaces answers = []) = (\<not> list_ex hard_error answers)"
proof (induction namespaces arbitrary: answers)
  case Nil
  then show ?case by (simp add: failed_deletes_Nil)
next
  case (Cons ns rest)
  then obtain r rs where a: "answers = r # rs" by (cases answers) auto
  with Cons.prems have "length rs = length rest" by simp
  from Cons.IH[OF this] show ?case unfolding a
    by (cases r) (simp_all add: failed_deletes_Cons)
qed

lemma handleDelete_run:
  assumes "client e = Some c" and "generatedNamespaces e \<noteq> []"
  shows "handleDeleteGeneratedNamespaces req e cl =
     (delete_result (generatedNamespaces e)
        (failed_deletes (generatedNamespaces e) (delete_answers c (generatedNamespaces e) (world cl))),
      e\<lparr>generatedNamespaces := []\<rparr>,
      \<lparr>world = delete_world c (generatedNamespaces e) (world cl),
       calls = calls cl @ map (\<lambda>ns. DeleteCall namespaceGVR ns [] deleteOpts) (generatedNamespaces e)\<rparr>)"
  using assms by (simp add: handleDeleteGeneratedNamespaces_def Let_def delete_loop_run)

text \<open>
  C4: on a non-empty snapshot (client set) the handler calls \<^verbatim>\<open>Delete\<close> once for each
  namespace of the snapshot, in order, with foreground propagation. It succeeds exactly
  when no answer of the client is an error other than not-found; when it fails, its error
  is "failed to delete namespaces: " followed by the entries \<^verbatim>\<open>"<ns>: <error>"\<close> of the
  namespaces whose answer was such an error, joined with "; ". In either case the list
  of generated namespaces is empty afterwards.
\<close>

theorem delete_tracked_outcome:
  assumes "client e = Some c" and "generatedNamespaces e \<noteq> []"
  shows "calls (snd (snd (handleDeleteGeneratedNamespaces req e cl)))
           = calls cl @ map (\<lambda>ns. DeleteCall namespaceGVR ns [] deleteOpts) (generatedNamespaces e)
       \<and> PropagationPolicy deleteOpts = Some DeletePropagationForeground
       \<and> Success (fst (handleDeleteGeneratedNamespaces req e cl))
           = (\<not> list_ex hard_error (delete_answers c (generatedNamespaces e) (world cl)))
       \<and> (\<not> Success (fst (handleDeleteGeneratedNamespaces req e cl)) \<longrightarrow>
            Error (fst (handleDeleteGeneratedNamespaces req e cl))
              = ''failed to delete namespaces: ''
                @ Join (failed_deletes (generatedNamespaces e)
                          (delete_answers c (generatedNamespaces e) (world cl))) ''; '')
       \<and> generatedNamespaces (fst (snd (handleDeleteGeneratedNamespaces req e cl))) = []"
  using failed_deletes_empty[OF length_delete_answers[of c "generatedNamespaces e" "world cl"]]
  by (simp add: handleDelete_run[OF assms] delete_result_def sdk_Failure_def sdk_Success_def deleteOpts_def)

theorem delete_tracked_outcome_witness:
  "\<not> Success (fst (handleDeleteGeneratedNamespaces (AMap [])
        (test_extension denying_client [''vm-test-err'']) fresh_cluster))
   \<and> Error (fst (handleDeleteGeneratedNamespaces (AMap [])
        (test_extension denying_client [''vm-test-err'']) fresh_cluster))
       = ''failed to delete namespaces: vm-test-err: permission denied''
   \<and> calls (snd (snd (handleDeleteGeneratedNamespaces (AMap [])
        (test_extension denying_client [''vm-test-err'']) fresh_cluster)))
       = [DeleteCall namespaceGVR ''vm-test-err'' [] deleteOpts]
   \<and> generatedNamespaces (fst (snd (handleDeleteGeneratedNamespaces (AMap [])
        (test_extension denying_client [''vm-test-err'']) fresh_cluster))) = []"
proof -
  have h1: "client (test_extension denying_client [''vm-test-err'']) = Some denying_client"
    by (simp add: test_extension_def)
  have h2: "generatedNamespaces (test_extension denying_client [''vm-test-err'']) \<noteq> []"
    by (simp add: test_extension_def)
  have a: "Delete denying_client namespaceGVR ns [] deleteOpts ()
             = (Some (PlainError ''permission denied''), ())" for ns
    by (simp add: denying_client_def mockClient_def)
  show ?thesis
    using delete_tracked_outcome [OF h1 h2, of "AMap []" fresh_cluster]
    by (simp add: test_extension_def fresh_cluster_def a failed_deletes_Cons failed_deletes_Nil)
qed

lemma itoa_1: "itoa (Suc 0) = ''1''"
  by code_simp

declare itoa.simps [simp del]

lemma performed_le: "performed answers \<le> length answers"
  by (simp add: performed_def)

text \<open>
  C10: when the handler succeeds on a non-empty snapshot, its message is "Deleted N
  generated namespace(s)" with N the length of the snapshot, whatever the client
  answered: a namespace answered with not-found is counted. The number of deletions that
  the client performed is at most N, and it can be smaller: there is a successful run
  whose count is larger than the number of deletions performed.
\<close>

theorem delete_success_counts_snapshot:
  assumes "client e = Some c" and "generatedNamespaces e \<noteq> []"
    and "Success (fst (handleDeleteGeneratedNamespaces req e cl))"
  shows "Message (fst (handleDeleteGeneratedNamespaces req e cl))
           = ''Deleted '' @ itoa (length (generatedNamespaces e)) @ '' generated namespace(s)''
       \<and> performed (delete_answers c (generatedNamespaces e) (world cl)) \<le> length (generatedNamespaces e)
       \<and> (\<exists>(e0 :: unit Extension) c0 cl0.
             client e0 = Some c0
           \<and> Success (fst (handleDeleteGeneratedNamespaces req e0 cl0))
           \<and> performed (delete_answers c0 (generatedNamespaces e0) (world cl0))
               < length (generatedNamespaces e0))"
proof -
  have "Message (fst (handleDeleteGeneratedNamespaces req e cl))
           = ''Deleted '' @ itoa (length (generatedNamespaces e)) @ '' generated namespace(s)''"
    using assms(3)
    by (simp add: handleDelete_run[OF assms(1,2)] delete_result_def sdk_Failure_def sdk_Success_def
        split: if_splits)
  moreover have "performed (delete_answers c (generatedNamespaces e) (world cl)) \<le> length (generatedNamespaces e)"
    using performed_le[of "delete_answers c (generatedNamespaces e) (world cl)"]
    by (simp add: length_delete_answers)
  moreover have "client (test_extension gone_client [''vm-test-gone'']) = Some gone_client
      \<and> Success (fst (handleDeleteGeneratedNamespaces req (test_extension gone_client [''vm-test-gone''])
                    fresh_cluster))
      \<and> performed (delete_answers gone_client
            (generatedNamespaces (test_extension gone_client [''vm-test-gone''])) (world fresh_cluster))
          < length (generatedNamespaces (test_extension gone_client [''vm-test-gone'']))"
    by (simp add: handleDeleteGeneratedNamespaces_def test_extension_def delete_one_def gone_client_def
        mockClient_def fresh_cluster_def delete_result_def sdk_Success_def performed_def Let_def)
  ultimately show ?thesis by blast
qed

theorem delete_success_counts_snapshot_witness:
  "Success (fst (handleDeleteGeneratedNamespaces (AMap [])
       (test_extension gone_client [''vm-test-gone'']) fresh_cluster))
   \<and> Message (fst (handleDeleteGeneratedNamespaces (AMap [])
       (test_extension gone_client [''vm-test-gone'']) fresh_cluster))
       = ''Deleted 1 generated namespace(s)''
   \<and> performed (delete_answers gone_client [''vm-test-gone''] ()) = 0"
proof -
  have h1: "client (test_extension gone_client [''vm-test-gone'']) = Some gone_client"
    by (simp add: test_extension_def)
  have h2: "generatedNamespaces (test_extension gone_client [''vm-test-gone'']) \<noteq> []"
    by (simp add: test_extension_def)
  have h3: "Success (fst (handleDeleteGeneratedNamespaces (AMap [])
       (test_extension gone_client [''vm-test-gone'']) fresh_cluster))"
    by (simp add: handleDeleteGeneratedNamespaces_def test_extension_def delete_one_def gone_client_def
        mockClient_def fresh_cluster_def delete_result_def sdk_Success_def Let_def)
  have p: "performed (delete_answers gone_client [''vm-test-gone''] ()) = 0"
    by (simp add: gone_client_def mockClient_def performed_def)
  show ?thesis
    using h3 p delete_success_counts_snapshot [OF h1 h2 h3]
    by (simp add: test_extension_def itoa_1)
qed

section \<open>Two deleteGeneratedNamespaces at once\<close>

lemma deleted_names_append: "deleted_names (xs @ ys) = deleted_names xs @ deleted_names ys"
  by (induction xs rule: deleted_names.induct) simp_all

lemma deleted_names_map:
  "deleted_names (map (\<lambda>ns. DeleteCall namespaceGVR ns [] deleteOpts) namespaces) = namespaces"
  by (induction namespaces) simp_all

lemma took_cleared: "took p \<Longrightarrow> cleared p"
  by (cases p) simp_all

lemma copied_holds: "copied p = Some ns \<Longrightarrow> holds p"
  by (cases p) simp_all

lemma delete_one_calls:
  "calls (snd (delete_one c ns errs cl)) = calls cl @ [DeleteCall namespaceGVR ns [] deleteOpts]"
  by (simp add: delete_one_run)

lemma del_step_loop_inv:
  assumes "del_inv names before (DLoop ns (n # rest) errs, q, s)"
    and "del_step (DLoop ns (n # rest) errs) s = Some (p', s')"
  shows "del_inv names before (p', q, s')"
proof -
  from assms(1) obtain c where c: "client (ext s) = Some c" by (auto simp: del_inv_def)
  obtain errs' cl' where d: "delete_one c n errs (env s) = (errs', cl')"
    by (cases "delete_one c n errs (env s)") auto
  have k: "calls cl' = calls (env s) @ [DeleteCall namespaceGVR n [] deleteOpts]"
    using delete_one_calls[of c n errs "env s"] d by simp
  have step: "p' = DLoop ns rest errs'" "s' = s\<lparr>env := cl'\<rparr>"
    using assms(2) c d by auto
  show ?thesis using assms(1) unfolding step
    by (auto simp: del_inv_def k deleted_names_append)
qed

text \<open>A step of the first goroutine keeps the invariant, by cases on its program counter.\<close>

lemma del_step_inv:
  assumes "del_inv names before (p, q, s)" and "del_step p s = Some (p', s')"
  shows "del_inv names before (p', q, s')"
proof (cases p)
  case DEntry
  show ?thesis using assms unfolding DEntry
    by (auto simp: del_inv_def split: option.splits)
next
  case DLock
  show ?thesis using assms unfolding DLock
    by (auto simp: del_inv_def split: if_splits)
next
  case DCopy
  show ?thesis using assms unfolding DCopy
    by (auto simp: del_inv_def dest: copied_holds)
next
  case (DClear ns)
  show ?thesis using assms unfolding DClear
    by (cases "copied q") (auto simp: del_inv_def ac_simps dest: copied_holds took_cleared)
next
  case (DUnlock ns)
  show ?thesis using assms unfolding DUnlock
    by (auto simp: del_inv_def)
next
  case (DCheck ns)
  show ?thesis using assms unfolding DCheck
    by (auto simp: del_inv_def split: if_splits)
next
  case (DLoop ns rest errs)
  show ?thesis
  proof (cases rest)
    case Nil
    show ?thesis using assms unfolding DLoop Nil
      by (auto simp: del_inv_def)
  next
    case (Cons n rest')
    show ?thesis using assms unfolding DLoop Cons
      by (rule del_step_loop_inv)
  qed
next
  case (DReturn r)
  show ?thesis using assms(2) unfolding DReturn by simp
qed

lemma del_inv_swap: "del_inv names before (p, q, s) \<Longrightarrow> del_inv names before (q, p, s)"
  by (clarsimp simp: del_inv_def ac_simps) blast

lemma sys_step_inv:
  assumes "sys_step cfg cfg'" and "del_inv names before cfg"
  shows "del_inv names before cfg'"
  using assms
proof (induction rule: sys_step.induct)
  case (first p s p' s' q)
  from first(2) first(1) show ?case by (rule del_step_inv)
next
  case (second q s q' s' p)
  from second(2) have "del_inv names before (q, p, s)" by (rule del_inv_swap)
  from this second(1) have "del_inv names before (q', p, s')" by (rule del_step_inv)
  thus ?case by (rule del_inv_swap)
qed

lemma reachable_inv:
  assumes "sys_step\<^sup>*\<^sup>* cfg cfg'" and "del_inv names before cfg"
  shows "del_inv names before cfg'"
  using assms(1)
proof (induction rule: rtranclp_induct)
  case base
  show ?case by (rule assms(2))
next
  case (step y z)
  from step.hyps(2) step.IH show ?case by (rule sys_step_inv)
qed

lemma del_inv_init:
  "client e = Some c \<Longrightarrow>
     del_inv (generatedNamespaces e) (calls cl) (DEntry, DEntry, \<lparr>ext = e, mu = False, env = cl\<rparr>)"
  by (simp add: del_inv_def)

text \<open>One goroutine run alone takes the steps of the handler and ends with its result.\<close>

lemma del_run_Return: "del_run k (DReturn r) s = (DReturn r, s)"
  by (cases k) simp_all

lemma del_run_loop:
  "client (ext s) = Some c \<Longrightarrow>
     del_run (Suc (length rest) + k) (DLoop ns rest errs) s
       = (DReturn (delete_result ns (fst (delete_loop c rest errs (env s)))),
          s\<lparr>env := snd (delete_loop c rest errs (env s))\<rparr>)"
proof (induction rest arbitrary: errs s)
  case Nil
  show ?case by (simp add: del_run_Return)
next
  case (Cons n rest)
  obtain errs' cl' where d: "delete_one c n errs (env s) = (errs', cl')"
    by (cases "delete_one c n errs (env s)") auto
  have "client (ext (s\<lparr>env := cl'\<rparr>)) = Some c" using Cons.prems by simp
  from Cons.IH[OF this, of errs'] show ?case using Cons.prems d by simp
qed

lemma del_run_prefix:
  assumes "client e = Some c"
  shows "del_run (Suc (Suc (Suc (Suc (Suc k))))) DEntry \<lparr>ext = e, mu = False, env = cl\<rparr>
     = del_run k (DCheck (generatedNamespaces e))
         \<lparr>ext = e\<lparr>generatedNamespaces := []\<rparr>, mu = False, env = cl\<rparr>"
  using assms by simp

lemma del_run_handler:
  assumes "client e = Some c"
  shows "del_run (length (generatedNamespaces e) + 7) DEntry \<lparr>ext = e, mu = False, env = cl\<rparr>
     = (DReturn (fst (handleDeleteGeneratedNamespaces req e cl)),
        \<lparr>ext = fst (snd (handleDeleteGeneratedNamespaces req e cl)), mu = False,
         env = snd (snd (handleDeleteGeneratedNamespaces req e cl))\<rparr>)"
proof -
  let ?ns = "generatedNamespaces e"
  let ?s1 = "\<lparr>ext = e\<lparr>generatedNamespaces := []\<rparr>, mu = False, env = cl\<rparr>"
  have fuel: "length ?ns + 7 = Suc (Suc (Suc (Suc (Suc (Suc (Suc (length ?ns) + 0))))))" by simp
  have start: "del_run (length ?ns + 7) DEntry \<lparr>ext = e, mu = False, env = cl\<rparr>
      = del_run (Suc (Suc (length ?ns) + 0)) (DCheck ?ns) ?s1"
    unfolding fuel by (rule del_run_prefix[OF assms])
  show ?thesis
  proof (cases "?ns = []")
    case True
    have "del_run (Suc (Suc (length ?ns) + 0)) (DCheck ?ns) ?s1
        = (DReturn (sdk_Success ''No generated namespaces to delete''), ?s1)"
      using True by (simp add: del_run_Return)
    moreover have "handleDeleteGeneratedNamespaces req e cl
        = (sdk_Success ''No generated namespaces to delete'', e\<lparr>generatedNamespaces := []\<rparr>, cl)"
      using True assms by (simp add: handleDeleteGeneratedNamespaces_def)
    ultimately show ?thesis unfolding start by simp
  next
    case False
    have c1: "client (ext ?s1) = Some c" using assms by simp
    have "del_run (Suc (Suc (length ?ns) + 0)) (DCheck ?ns) ?s1
        = del_run (Suc (length ?ns) + 0) (DLoop ?ns ?ns []) ?s1"
      using False by simp
    also have "\<dots> = (DReturn (delete_result ?ns (fst (delete_loop c ?ns [] (env ?s1)))),
          ?s1\<lparr>env := snd (delete_loop c ?ns [] (env ?s1))\<rparr>)"
      by (rule del_run_loop[OF c1])
    finally have run: "del_run (Suc (Suc (length ?ns) + 0)) (DCheck ?ns) ?s1
        = (DReturn (delete_result ?ns (fst (delete_loop c ?ns [] cl))),
           \<lparr>ext = e\<lparr>generatedNamespaces := []\<rparr>, mu = False, env = snd (delete_loop c ?ns [] cl)\<rparr>)"
      by simp
    have "handleDeleteGeneratedNamespaces req e cl
        = (delete_result ?ns (fst (delete_loop c ?ns [] cl)), e\<lparr>generatedNamespaces := []\<rparr>,
           snd (delete_loop c ?ns [] cl))"
      using False assms by (simp add: handleDeleteGeneratedNamespaces_def Let_def split: prod.splits)
    thus ?thesis unfolding start run by simp
  qed
qed

lemma del_run_first:
  "sys_step\<^sup>*\<^sup>* (p, q, s) (fst (del_run n p s), q, snd (del_run n p s))"
proof (induction n arbitrary: p s)
  case 0
  show ?case by simp
next
  case (Suc n)
  show ?case
  proof (cases "del_step p s")
    case None
    then show ?thesis by simp
  next
    case (Some a)
    obtain p' s' where a: "a = (p', s')" by (cases a) auto
    have "sys_step (p, q, s) (p', q, s')" using Some a by (auto intro: sys_step.first)
    from converse_rtranclp_into_rtranclp[OF this Suc.IH[of p' s']]
    show ?thesis using Some a by simp
  qed
qed

lemma del_run_second:
  "sys_step\<^sup>*\<^sup>* (p, q, s) (p, fst (del_run n q s), snd (del_run n q s))"
proof (induction n arbitrary: q s)
  case 0
  show ?case by simp
next
  case (Suc n)
  show ?case
  proof (cases "del_step q s")
    case None
    then show ?thesis by simp
  next
    case (Some a)
    obtain q' s' where a: "a = (q', s')" by (cases a) auto
    have "sys_step (p, q, s) (p, q', s')" using Some a by (auto intro: sys_step.second)
    from converse_rtranclp_into_rtranclp[OF this Suc.IH[of q' s']]
    show ?thesis using Some a by simp
  qed
qed

lemma delete_nothing_to_do_aux:
  assumes "client e = Some c" and "generatedNamespaces e = []"
  shows "handleDeleteGeneratedNamespaces req e cl
           = (sdk_Success ''No generated namespaces to delete'', e, cl)"
proof -
  have "e\<lparr>generatedNamespaces := []\<rparr> = e" using assms(2) by (cases e) simp
  thus ?thesis using assms by (simp add: handleDeleteGeneratedNamespaces_def)
qed

text \<open>The schedule that runs the first handler to its end and then the second.\<close>

lemma one_after_the_other:
  assumes "client e = Some c"
  shows "sys_step\<^sup>*\<^sup>* (DEntry, DEntry, \<lparr>ext = e, mu = False, env = cl\<rparr>)
     (DReturn (fst (handleDeleteGeneratedNamespaces req e cl)), DReturn no_op,
      \<lparr>ext = e\<lparr>generatedNamespaces := []\<rparr>, mu = False,
       env = snd (snd (handleDeleteGeneratedNamespaces req e cl))\<rparr>)"
proof -
  let ?R = "handleDeleteGeneratedNamespaces req e cl"
  let ?e1 = "e\<lparr>generatedNamespaces := []\<rparr>"
  have e1: "fst (snd ?R) = ?e1"
    using assms by (simp add: handleDeleteGeneratedNamespaces_def Let_def split: prod.splits)
  have c1: "client ?e1 = Some c" using assms by simp
  have R1: "handleDeleteGeneratedNamespaces req ?e1 (snd (snd ?R)) = (no_op, ?e1, snd (snd ?R))"
    using delete_nothing_to_do_aux[where e = ?e1 and c = c and req = req and cl = "snd (snd ?R)"] c1
    by (simp add: no_op_def)
  have "sys_step\<^sup>*\<^sup>* (DEntry, DEntry, \<lparr>ext = e, mu = False, env = cl\<rparr>)
      (DReturn (fst ?R), DEntry, \<lparr>ext = ?e1, mu = False, env = snd (snd ?R)\<rparr>)"
    using del_run_first[of DEntry DEntry "\<lparr>ext = e, mu = False, env = cl\<rparr>"
        "length (generatedNamespaces e) + 7"]
    unfolding del_run_handler[OF assms, of cl req] e1 by simp
  moreover have "sys_step\<^sup>*\<^sup>* (DReturn (fst ?R), DEntry, \<lparr>ext = ?e1, mu = False, env = snd (snd ?R)\<rparr>)
      (DReturn (fst ?R), DReturn no_op, \<lparr>ext = ?e1, mu = False, env = snd (snd ?R)\<rparr>)"
    using del_run_second[of "DReturn (fst ?R)" DEntry "\<lparr>ext = ?e1, mu = False, env = snd (snd ?R)\<rparr>"
        "length (generatedNamespaces ?e1) + 7"]
    unfolding del_run_handler[OF c1, of "snd (snd ?R)" req] R1 by simp
  ultimately show ?thesis by (rule rtranclp_trans)
qed

text \<open>
  C2: with a client set, the handler leaves the list of generated namespaces empty
  whatever the client answers, and the names it passes to \<^verbatim>\<open>Delete\<close> are exactly those of
  the list as it was at the swap; a second call after it is the no-op "No generated
  namespaces to delete". Taken step by step (run alone, the steps give the handler's
  result), with two invocations interleaved in any way: the two are never both between
  \<^verbatim>\<open>Lock\<close> and \<^verbatim>\<open>Unlock\<close>, a snapshot that has been copied is the list itself until it is
  cleared, and no \<^verbatim>\<open>Delete\<close> is called before one of the two has cleared the list; when
  both have returned, the list is empty, the names passed to \<^verbatim>\<open>Delete\<close> by the two together
  are the names of the initial list, each as often as it stood there, and at least one
  of the two results is the no-op.
\<close>

theorem delete_snapshot_atomic:
  assumes "client e = Some c"
  shows "generatedNamespaces (fst (snd (handleDeleteGeneratedNamespaces req e cl))) = []
       \<and> deleted_names (calls (snd (snd (handleDeleteGeneratedNamespaces req e cl))))
           = deleted_names (calls cl) @ generatedNamespaces e
       \<and> handleDeleteGeneratedNamespaces req' (fst (snd (handleDeleteGeneratedNamespaces req e cl)))
             (snd (snd (handleDeleteGeneratedNamespaces req e cl)))
           = (no_op, fst (snd (handleDeleteGeneratedNamespaces req e cl)),
              snd (snd (handleDeleteGeneratedNamespaces req e cl)))
       \<and> del_run (length (generatedNamespaces e) + 7) DEntry \<lparr>ext = e, mu = False, env = cl\<rparr>
           = (DReturn (fst (handleDeleteGeneratedNamespaces req e cl)),
              \<lparr>ext = fst (snd (handleDeleteGeneratedNamespaces req e cl)), mu = False,
               env = snd (snd (handleDeleteGeneratedNamespaces req e cl))\<rparr>)
       \<and> (\<forall>p q s. sys_step\<^sup>*\<^sup>* (DEntry, DEntry, \<lparr>ext = e, mu = False, env = cl\<rparr>) (p, q, s) \<longrightarrow>
              \<not> (holds p \<and> holds q)
            \<and> (copied p = None \<or> copied p = Some (generatedNamespaces (ext s)))
            \<and> (copied q = None \<or> copied q = Some (generatedNamespaces (ext s)))
            \<and> (calls (env s) = calls cl \<or> cleared p \<or> cleared q))
       \<and> (\<forall>r1 r2 s. sys_step\<^sup>*\<^sup>* (DEntry, DEntry, \<lparr>ext = e, mu = False, env = cl\<rparr>)
                         (DReturn r1, DReturn r2, s) \<longrightarrow>
              generatedNamespaces (ext s) = []
            \<and> mset (deleted_names (calls (env s)))
                = mset (deleted_names (calls cl)) + mset (generatedNamespaces e)
            \<and> (r1 = no_op \<or> r2 = no_op))"
proof -
  let ?R = "handleDeleteGeneratedNamespaces req e cl"
  let ?s0 = "\<lparr>ext = e, mu = False, env = cl\<rparr>"
  have e1: "fst (snd ?R) = e\<lparr>generatedNamespaces := []\<rparr>"
    using assms by (simp add: handleDeleteGeneratedNamespaces_def Let_def split: prod.splits)
  have a: "generatedNamespaces (fst (snd ?R)) = []" by (simp add: e1)
  have b: "deleted_names (calls (snd (snd ?R))) = deleted_names (calls cl) @ generatedNamespaces e"
  proof (cases "generatedNamespaces e = []")
    case True
    with assms show ?thesis by (simp add: handleDeleteGeneratedNamespaces_def)
  next
    case False
    show ?thesis
      by (simp add: handleDelete_run[OF assms False] deleted_names_append deleted_names_map)
  qed
  have c1: "client (fst (snd ?R)) = Some c" using assms by (simp add: e1)
  have c: "handleDeleteGeneratedNamespaces req' (fst (snd ?R)) (snd (snd ?R))
      = (no_op, fst (snd ?R), snd (snd ?R))"
    using delete_nothing_to_do_aux[OF c1 a] by (simp add: no_op_def)
  have d: "del_run (length (generatedNamespaces e) + 7) DEntry ?s0
      = (DReturn (fst ?R), \<lparr>ext = fst (snd ?R), mu = False, env = snd (snd ?R)\<rparr>)"
    by (rule del_run_handler[OF assms])
  have inv: "del_inv (generatedNamespaces e) (calls cl) (p, q, s)"
    if "sys_step\<^sup>*\<^sup>* (DEntry, DEntry, ?s0) (p, q, s)" for p q s
    using that del_inv_init[OF assms] by (rule reachable_inv)
  have f: "\<not> (holds p \<and> holds q)
        \<and> (copied p = None \<or> copied p = Some (generatedNamespaces (ext s)))
        \<and> (copied q = None \<or> copied q = Some (generatedNamespaces (ext s)))
        \<and> (calls (env s) = calls cl \<or> cleared p \<or> cleared q)"
    if "sys_step\<^sup>*\<^sup>* (DEntry, DEntry, ?s0) (p, q, s)" for p q s
    using inv[OF that] by (simp add: del_inv_def)
  have g: "generatedNamespaces (ext s) = []
        \<and> mset (deleted_names (calls (env s)))
            = mset (deleted_names (calls cl)) + mset (generatedNamespaces e)
        \<and> (r1 = no_op \<or> r2 = no_op)"
    if "sys_step\<^sup>*\<^sup>* (DEntry, DEntry, ?s0) (DReturn r1, DReturn r2, s)" for r1 r2 s
    using inv[OF that] by (auto simp: del_inv_def no_op_def)
  from a b c d f g show ?thesis by blast
qed

lemma itoa_2: "itoa (Suc (Suc 0)) = ''2''"
  by code_simp

theorem delete_snapshot_atomic_witness:
  "sys_step\<^sup>*\<^sup>*
     (DEntry, DEntry,
      \<lparr>ext = test_extension echo_client [''vm-test-abc123'', ''vm-test-def456''], mu = False,
       env = fresh_cluster\<rparr>)
     (DReturn (sdk_Success ''Deleted 2 generated namespace(s)''), DReturn no_op,
      \<lparr>ext = test_extension echo_client [], mu = False,
       env = \<lparr>world = (), calls = [DeleteCall namespaceGVR ''vm-test-abc123'' [] deleteOpts,
                                  DeleteCall namespaceGVR ''vm-test-def456'' [] deleteOpts]\<rparr>\<rparr>)
   \<and> generatedNamespaces (ext
       \<lparr>ext = test_extension echo_client [], mu = False,
        env = \<lparr>world = (), calls = [DeleteCall namespaceGVR ''vm-test-abc123'' [] deleteOpts,
                                   DeleteCall namespaceGVR ''vm-test-def456'' [] deleteOpts]\<rparr>\<rparr>) = []
   \<and> mset (deleted_names [DeleteCall namespaceGVR ''vm-test-abc123'' [] deleteOpts,
                          DeleteCall namespaceGVR ''vm-test-def456'' [] deleteOpts])
       = mset [''vm-test-abc123'', ''vm-test-def456'']"
proof -
  let ?e = "test_extension echo_client [''vm-test-abc123'', ''vm-test-def456'']"
  let ?cl = "\<lparr>world = (), calls = [DeleteCall namespaceGVR ''vm-test-abc123'' [] deleteOpts,
                                   DeleteCall namespaceGVR ''vm-test-def456'' [] deleteOpts]\<rparr>"
  have h: "client ?e = Some echo_client" by (simp add: test_extension_def)
  have R: "handleDeleteGeneratedNamespaces (AMap []) ?e fresh_cluster
      = (sdk_Success ''Deleted 2 generated namespace(s)'', test_extension echo_client [], ?cl)"
    by (simp add: handleDeleteGeneratedNamespaces_def test_extension_def delete_one_def echo_client_def
        mockClient_def fresh_cluster_def delete_result_def itoa_2 Let_def)
  have reach: "sys_step\<^sup>*\<^sup>* (DEntry, DEntry, \<lparr>ext = ?e, mu = False, env = fresh_cluster\<rparr>)
      (DReturn (sdk_Success ''Deleted 2 generated namespace(s)''), DReturn no_op,
       \<lparr>ext = test_extension echo_client [], mu = False, env = ?cl\<rparr>)"
    using one_after_the_other[OF h, of fresh_cluster "AMap []"] unfolding R
    by (simp add: test_extension_def)
  from delete_snapshot_atomic [OF h, of "AMap []" fresh_cluster] reach
  have "generatedNamespaces (ext \<lparr>ext = test_extension echo_client [], mu = False, env = ?cl\<rparr>) = []
      \<and> mset (deleted_names (calls (env \<lparr>ext = test_extension echo_client [], mu = False, env = ?cl\<rparr>)))
          = mset (deleted_names (calls fresh_cluster)) + mset (generatedNamespaces ?e)"
    by blast
  with reach show ?thesis by (simp add: fresh_cluster_def test_extension_def)
qed

section \<open>Properties of the permission probe\<close>

text \<open>
  C8: when the client's permission check answers \<open>allowed\<close> and the query supplies an
  expectation, the success of the operation is \<open>allowed = expected\<close>, and the outputs
  hold the answer under \<^verbatim>\<open>allowed\<close> whether or not it matches; the text of an answer tells
  the answer.
\<close>

theorem check_access_expectation:
  assumes "CheckPermission query w = (Inr allowed, w')"
    and "expectedAllowed query = Some expected"
  shows "Success (fst (CheckAccess CheckPermission query w)) = (allowed = expected)
       \<and> map_of (Outputs (fst (CheckAccess CheckPermission query w))) ''allowed''
           = Some (format_bool allowed)
       \<and> (format_bool allowed = ''true'') = allowed"
  using assms
  by (simp add: CheckAccess_def sdk_SuccessWithOutputs_def sdk_Failure_def format_bool_def Let_def)

theorem check_access_expectation_witness:
  "\<not> Success (fst (CheckAccess deny_all alice_query ()))
   \<and> map_of (Outputs (fst (CheckAccess deny_all alice_query ()))) ''allowed'' = Some ''false''"
proof -
  have h1: "deny_all alice_query () = (Inr False, ())" by (simp add: deny_all_def)
  have h2: "expectedAllowed alice_query = Some True" by (simp add: alice_query_def)
  show ?thesis
    using check_access_expectation [where CheckPermission = deny_all and query = alice_query
        and w = "()" and allowed = False and w' = "()" and expected = True, OF h1 h2]
    by (simp add: format_bool_def)
qed

end
